theory Spec2Isabelle
  imports Main
begin

section \<open>Data model\<close>

text \<open>
  A chapter as the server stores it and the clients receive it as JSON
  (the \<open>Chapter\<close> interface of the refactored client, plus the \<open>slide\<close> field the
  server's literal carries). The \<open>id\<close> field is a JavaScript number; \<open>parseInt\<close> on the
  server may produce a negative one, so it is an \<open>int\<close>.
\<close>

record Chapter =
  ch_id :: int
  ch_title :: string
  ch_slide :: string
  ch_summary :: string
  ch_cliffnotes :: "string list"
  ch_read :: bool
  ch_notes :: "string list"
  ch_details :: string

text \<open>The \<open>ChaptersResponse\<close> interface: \<open>{ data, total }\<close>.\<close>

record ChaptersResponse =
  resp_data :: "Chapter list"
  resp_total :: nat

text \<open>
  What an awaited \<open>fetch\<close> gives the handler: a response with \<open>res.ok\<close> and its JSON
  body, a response whose \<open>res.ok\<close> is false (the handler throws its own message), or a
  rejected promise carrying the error's message. The last two both reach \<open>catch\<close>.
\<close>

datatype 'a fetched = Res_ok 'a | Res_not_ok | Rejected string

text \<open>The requests the clients send to the chapter store.\<close>

datatype request =
    Get_chapters nat nat
  | Patch_chapter int bool
  | Post_note int string

section \<open>The legacy client: the \<open>App\<close> component's state and handlers\<close>

text \<open>The six \<open>useState\<close> cells of \<open>App\<close>, with their initial values.\<close>

record app_state =
  chs :: "Chapter list"
  load :: bool
  pg :: nat
  has_more :: bool
  prog :: int
  err_msg :: "string option"

definition initial_state :: app_state where
  "initial_state =
     \<lparr>chs = [], load = True, pg = 1, has_more = True, prog = 0, err_msg = None\<rparr>"

definition limit :: nat where
  "limit = 5"

text \<open>
  The updater passed to \<open>setChs\<close> in \<open>fetchChapters\<close>:
  \<^verbatim>\<open>prev => { const existingIds = new Set(prev.map(c => c.id));
            const newChs = data.filter(c => !existingIds.has(c.id));
            return [...prev, ...newChs]; }\<close>
\<close>

definition setChs_merge :: "Chapter list \<Rightarrow> Chapter list \<Rightarrow> Chapter list" where
  "setChs_merge prev data =
     (let existingIds = set (map ch_id prev);
          newChs = filter (\<lambda>c. ch_id c \<notin> existingIds) data
      in prev @ newChs)"

text \<open>
  The merge as the specification words it, written independently of the code: walk the
  incoming page in order and keep a chapter when no accumulated chapter has its id.
\<close>

fun id_present :: "int \<Rightarrow> Chapter list \<Rightarrow> bool" where
  "id_present i [] = False"
| "id_present i (a # as) = (if ch_id a = i then True else id_present i as)"

fun incoming_not_present :: "Chapter list \<Rightarrow> Chapter list \<Rightarrow> Chapter list" where
  "incoming_not_present acc [] = []"
| "incoming_not_present acc (c # cs) =
     (if id_present (ch_id c) acc then incoming_not_present acc cs
      else c # incoming_not_present acc cs)"

definition merge_spec :: "Chapter list \<Rightarrow> Chapter list \<Rightarrow> Chapter list" where
  "merge_spec acc incoming = acc @ incoming_not_present acc incoming"

text \<open>
  The filter that \<open>fetchChapters\<close> writes out again for \<open>setHasMore\<close> and \<open>setProg\<close>:
  \<^verbatim>\<open>data.filter(c => !chs.some(existing => existing.id === c.id))\<close>. Here \<open>chs\<close> is
  the constant of the render that created this \<open>fetchChapters\<close>, not the \<open>prev\<close> of the
  updater; the model takes it as the argument \<open>chs_seen\<close>.
\<close>

definition not_yet_seen :: "Chapter list \<Rightarrow> Chapter list \<Rightarrow> Chapter list" where
  "not_yet_seen chs_seen data =
     filter (\<lambda>c. \<not> list_ex (\<lambda>existing. ch_id existing = ch_id c) chs_seen) data"

text \<open>
  \<open>fetchChapters(p)\<close> up to its \<open>await fetch(...)\<close>: \<open>setLoad(true)\<close> and the request for
  page \<open>p\<close>. The page size is the component's constant \<open>limit\<close>; the model takes it as
  the argument \<open>lim\<close> so that statements can range over page sizes.
\<close>

definition fetchChapters_start :: "nat \<Rightarrow> nat \<Rightarrow> app_state \<Rightarrow> request \<times> app_state" where
  "fetchChapters_start lim p st = (Get_chapters p lim, st\<lparr>load := True\<rparr>)"

text \<open>
  \<open>fetchChapters\<close> after the \<open>await\<close>: the \<open>try\<close> body on a good response, \<open>catch\<close>
  otherwise, and \<open>finally { setLoad(false) }\<close> on both.
\<close>

definition fetchChapters_finish ::
  "Chapter list \<Rightarrow> ChaptersResponse fetched \<Rightarrow> app_state \<Rightarrow> app_state" where
  "fetchChapters_finish chs_seen res st =
     (case res of
        Res_ok body \<Rightarrow>
          st\<lparr>chs := setChs_merge (chs st) (resp_data body),
             has_more :=
               (length chs_seen + length (not_yet_seen chs_seen (resp_data body))
                  < resp_total body),
             prog := int (length (filter ch_read
                       (chs_seen @ not_yet_seen chs_seen (resp_data body)))),
             load := False\<rparr>
      | Res_not_ok \<Rightarrow> st\<lparr>err_msg := Some ''Failed to fetch chaps'', load := False\<rparr>
      | Rejected m \<Rightarrow> st\<lparr>err_msg := Some m, load := False\<rparr>)"

text \<open>
  The scroll listener. \<open>near\<close> is the geometry test
  \<^verbatim>\<open>window.innerHeight + scrollTop >= offsetHeight - 100\<close>; \<open>has_more\<close> and \<open>load\<close> are
  read from the state the listener was registered with.
\<close>

definition near_bottom :: "int \<Rightarrow> int \<Rightarrow> int \<Rightarrow> bool" where
  "near_bottom innerHeight scrollTop offsetHeight \<longleftrightarrow>
     innerHeight + scrollTop \<ge> offsetHeight - 100"

definition handleScroll :: "bool \<Rightarrow> app_state \<Rightarrow> app_state" where
  "handleScroll near st =
     (if near \<and> has_more st \<and> \<not> load st then st\<lparr>pg := pg st + 1\<rparr> else st)"

text \<open>
  \<open>handle_toggle_read(id_num, currRead)\<close>. Nothing is set before the \<open>await\<close>: the
  request goes out and the state stays as it is.
\<close>

definition handle_toggle_read_start ::
  "int \<Rightarrow> bool \<Rightarrow> app_state \<Rightarrow> request \<times> app_state" where
  "handle_toggle_read_start id_num currRead st = (Patch_chapter id_num (\<not> currRead), st)"

definition handle_toggle_read_finish ::
  "Chapter list \<Rightarrow> int \<Rightarrow> bool \<Rightarrow> Chapter fetched \<Rightarrow> app_state \<Rightarrow> app_state" where
  "handle_toggle_read_finish chs_seen id_num currRead res st =
     (case res of
        Res_ok updatedCh \<Rightarrow>
          st\<lparr>chs := map (\<lambda>c. if ch_id c = id_num then updatedCh else c) (chs st),
             prog := int (length (filter ch_read chs_seen))
                       + (if \<not> currRead then 1 else - 1)\<rparr>
      | Res_not_ok \<Rightarrow> st\<lparr>err_msg := Some ''Failed to toggle read''\<rparr>
      | Rejected m \<Rightarrow> st\<lparr>err_msg := Some m\<rparr>)"

text \<open>
  The whole handler, awaited: the requests it sent and the state it leaves, given the
  store's answer. The handler was created by the render that shows \<open>st\<close>, so the \<open>chs\<close>
  it sees is \<open>chs st\<close>.
\<close>

definition handle_toggle_read ::
  "int \<Rightarrow> bool \<Rightarrow> Chapter fetched \<Rightarrow> app_state \<Rightarrow> request list \<times> app_state" where
  "handle_toggle_read id_num currRead res st =
     (let (req, st1) = handle_toggle_read_start id_num currRead st
      in ([req], handle_toggle_read_finish (chs st) id_num currRead res st1))"

text \<open>
  \<open>add_note(id_num, note_txt)\<close>: \<open>if (!note_txt) return;\<close> and then the POST. For a
  string, \<open>!note_txt\<close> holds of the empty string only.
\<close>

definition add_note_start :: "int \<Rightarrow> string \<Rightarrow> request option" where
  "add_note_start id_num note_txt =
     (if note_txt = [] then None else Some (Post_note id_num note_txt))"

definition add_note_finish :: "int \<Rightarrow> Chapter fetched \<Rightarrow> app_state \<Rightarrow> app_state" where
  "add_note_finish id_num res st =
     (case res of
        Res_ok updatedCh \<Rightarrow>
          st\<lparr>chs := map (\<lambda>c. if ch_id c = id_num then updatedCh else c) (chs st)\<rparr>
      | Res_not_ok \<Rightarrow> st\<lparr>err_msg := Some ''Failed to add note''\<rparr>
      | Rejected m \<Rightarrow> st\<lparr>err_msg := Some m\<rparr>)"

definition add_note ::
  "int \<Rightarrow> string \<Rightarrow> Chapter fetched \<Rightarrow> app_state \<Rightarrow> request list \<times> app_state" where
  "add_note id_num note_txt res st =
     (case add_note_start id_num note_txt of
        None \<Rightarrow> ([], st)
      | Some req \<Rightarrow> ([req], add_note_finish id_num res st))"

section \<open>The refactored client: the pure parts of \<open>useChapters\<close> and \<open>ChapterNotes\<close>\<close>

text \<open>\<open>select\<close>: \<^verbatim>\<open>data.pages.flatMap(page => page.data)\<close>.\<close>

definition useChapters_select :: "ChaptersResponse list \<Rightarrow> Chapter list" where
  "useChapters_select pages = concat (map resp_data pages)"

text \<open>
  \<^verbatim>\<open>getNextPageParam: (lastPage, allPages) =>
     lastPage.data.length > 0 ? allPages.length + 1 : undefined\<close>
\<close>

definition getNextPageParam :: "ChaptersResponse \<Rightarrow> ChaptersResponse list \<Rightarrow> nat option" where
  "getNextPageParam lastPage allPages =
     (if length (resp_data lastPage) > 0 then Some (length allPages + 1) else None)"

text \<open>
  \<^verbatim>\<open>progress: data?.pages.flatMap(page => page).filter(c => c.read).length || 0\<close>, where
  \<open>data.pages\<close> is already the selected flat list (\<open>None\<close> while there is no data).
\<close>

definition useChapters_progress :: "Chapter list option \<Rightarrow> nat" where
  "useChapters_progress selected =
     (case selected of None \<Rightarrow> 0 | Some cs \<Rightarrow> length (filter ch_read cs))"

text \<open>
  The Add Note button of \<open>ChapterNotes\<close>: \<^verbatim>\<open>if (newNote) { onAddNote(newNote); ... }\<close>.
  The result is the note handed to \<open>onAddNote\<close>, if any.
\<close>

definition ChapterNotes_onClick :: "string \<Rightarrow> string option" where
  "ChapterNotes_onClick newNote = (if newNote \<noteq> [] then Some newNote else None)"

section \<open>The server: the in-memory store and its route handlers\<close>

datatype 'a http = Json 'a | Status_404

text \<open>
  \<open>chapters.find(c => c.id === id)\<close> returns the first chapter with that id, and the
  handlers then assign to that object in place: the array changes at that position only.
\<close>

definition find_chapter :: "int \<Rightarrow> Chapter list \<Rightarrow> Chapter option" where
  "find_chapter i chapters = find (\<lambda>c. ch_id c = i) chapters"

fun assign_found :: "int \<Rightarrow> (Chapter \<Rightarrow> Chapter) \<Rightarrow> Chapter list \<Rightarrow> Chapter list" where
  "assign_found i f [] = []"
| "assign_found i f (c # cs) = (if ch_id c = i then f c # cs else c # assign_found i f cs)"

text \<open>\<open>app.get('/api/chapters/:id')\<close>\<close>

definition get_chapter_handler :: "int \<Rightarrow> Chapter list \<Rightarrow> Chapter http" where
  "get_chapter_handler i chapters =
     (case find_chapter i chapters of Some chapter' \<Rightarrow> Json chapter' | None \<Rightarrow> Status_404)"

text \<open>
  \<open>app.get('/api/chapters')\<close>. The query numbers are naturals here (the clients build
  the URL from a page counter and the limit); \<open>parseInt(...) || 1\<close> and \<open>|| 5\<close> replace
  a zero. \<open>slice(start, end)\<close> with \<open>start \<le> end\<close> is \<open>take (end - start) (drop start ...)\<close>.
\<close>

definition slice :: "nat \<Rightarrow> nat \<Rightarrow> 'a list \<Rightarrow> 'a list" where
  "slice start end' xs = take (end' - start) (drop start xs)"

definition get_chapters_handler :: "nat \<Rightarrow> nat \<Rightarrow> Chapter list \<Rightarrow> ChaptersResponse" where
  "get_chapters_handler page_q limit_q chapters =
     (let page = (if page_q = 0 then 1 else page_q);
          limit' = (if limit_q = 0 then 5 else limit_q);
          start = (page - 1) * limit';
          end' = start + limit';
          data = (if start < length chapters then slice start end' chapters else [])
      in \<lparr>resp_data = data, resp_total = length chapters\<rparr>)"

text \<open>\<open>app.patch('/api/chapters/:id')\<close>: the response and the store afterwards.\<close>

definition patch_chapter_handler ::
  "int \<Rightarrow> bool \<Rightarrow> Chapter list \<Rightarrow> Chapter http \<times> Chapter list" where
  "patch_chapter_handler i body_read chapters =
     (case find_chapter i chapters of
        Some chapter' \<Rightarrow>
          (Json (chapter'\<lparr>ch_read := body_read\<rparr>),
           assign_found i (\<lambda>c. c\<lparr>ch_read := body_read\<rparr>) chapters)
      | None \<Rightarrow> (Status_404, chapters))"

text \<open>\<open>app.post('/api/chapters/:id/notes')\<close>: \<open>chapter.notes.push(req.body.note)\<close>.\<close>

definition post_note_handler ::
  "int \<Rightarrow> string \<Rightarrow> Chapter list \<Rightarrow> Chapter http \<times> Chapter list" where
  "post_note_handler i body_note chapters =
     (case find_chapter i chapters of
        Some chapter' \<Rightarrow>
          (Json (chapter'\<lparr>ch_notes := ch_notes chapter' @ [body_note]\<rparr>),
           assign_found i (\<lambda>c. c\<lparr>ch_notes := ch_notes c @ [body_note]\<rparr>) chapters)
      | None \<Rightarrow> (Status_404, chapters))"

section \<open>A session of the legacy client against a store\<close>

text \<open>
  A store answers page requests; \<open>served_by\<close> is the server above holding \<open>chapters\<close>.
  A session pairs the requests sent so far with the component's state.
\<close>

definition served_by :: "Chapter list \<Rightarrow> nat \<Rightarrow> nat \<Rightarrow> ChaptersResponse fetched" where
  "served_by chapters p lim = Res_ok (get_chapters_handler p lim chapters)"

text \<open>
  \<^verbatim>\<open>useEffect(() => { fetchChapters(pg); }, [pg])\<close>, awaited: the request for the
  current \<open>pg\<close> goes out, the store answers, the continuation runs. The \<open>chs\<close> that
  \<open>fetchChapters\<close> sees is the one of the render that ran the effect.
\<close>

definition effect_pg ::
  "nat \<Rightarrow> (nat \<Rightarrow> nat \<Rightarrow> ChaptersResponse fetched) \<Rightarrow> request list \<times> app_state
     \<Rightarrow> request list \<times> app_state" where
  "effect_pg lim store s =
     (let st = snd s;
          (req, st1) = fetchChapters_start lim (pg st) st
      in (fst s @ [req], fetchChapters_finish (chs st) (store (pg st) lim) st1))"

text \<open>Mounting the component runs the effect once, on the initial state.\<close>

definition mount ::
  "nat \<Rightarrow> (nat \<Rightarrow> nat \<Rightarrow> ChaptersResponse fetched) \<Rightarrow> request list \<times> app_state" where
  "mount lim store = effect_pg lim store ([], initial_state)"

text \<open>
  A scroll to the bottom once the previous request has been answered: \<open>handleScroll\<close>,
  then the effect if \<open>pg\<close> changed.
\<close>

definition scroll_to_bottom ::
  "nat \<Rightarrow> (nat \<Rightarrow> nat \<Rightarrow> ChaptersResponse fetched) \<Rightarrow> request list \<times> app_state
     \<Rightarrow> request list \<times> app_state" where
  "scroll_to_bottom lim store s =
     (let st1 = handleScroll True (snd s)
      in if pg st1 = pg (snd s) then (fst s, st1) else effect_pg lim store (fst s, st1))"

primrec session ::
  "nat \<Rightarrow> (nat \<Rightarrow> nat \<Rightarrow> ChaptersResponse fetched) \<Rightarrow> nat \<Rightarrow> request list \<times> app_state" where
  "session lim store 0 = mount lim store"
| "session lim store (Suc n) = scroll_to_bottom lim store (session lim store n)"

text \<open>
  What \<open>fetch\<close> makes of the server's answer: a JSON body with \<open>res.ok\<close>, or the 404
  with \<open>res.ok\<close> false.
\<close>

definition fetch_result :: "'a http \<Rightarrow> 'a fetched" where
  "fetch_result r = (case r of Json body \<Rightarrow> Res_ok body | Status_404 \<Rightarrow> Res_not_ok)"

text \<open>A store whose answer to the request for page \<open>bad\<close> is not ok.\<close>

definition failing_at ::
  "nat \<Rightarrow> Chapter list \<Rightarrow> nat \<Rightarrow> nat \<Rightarrow> ChaptersResponse fetched" where
  "failing_at bad chapters p lim = (if p = bad then Res_not_ok else served_by chapters p lim)"

text \<open>
  The number of page requests the specification expects for \<open>N\<close> chapters in pages of
  \<open>k\<close>, \<open>ceil (N / k)\<close>, and the number the component sends: the mount always sends one.
\<close>

definition ceil_div :: "nat \<Rightarrow> nat \<Rightarrow> nat" where
  "ceil_div N k = (N + k - 1) div k"

definition fetches_needed :: "nat \<Rightarrow> nat \<Rightarrow> nat" where
  "fetches_needed N k = max 1 (ceil_div N k)"

text \<open>The state once pages \<open>1 .. j\<close> of \<open>store\<close> have been fetched and merged.\<close>

definition loaded_state :: "nat \<Rightarrow> Chapter list \<Rightarrow> nat \<Rightarrow> app_state" where
  "loaded_state k store j =
     \<lparr>chs = take (j * k) store, load = False, pg = j,
      has_more = (j * k < length store),
      prog = int (length (filter ch_read (take (j * k) store))), err_msg = None\<rparr>"

section \<open>Fixtures\<close>

text \<open>\<open>mockChapters\<close> of the test files (they carry no \<open>slide\<close>).\<close>

definition mockChapters :: "Chapter list" where
  "mockChapters =
     [\<lparr>ch_id = 1, ch_title = ''Chap 1'', ch_slide = [], ch_summary = ''Sum 1'',
       ch_cliffnotes = [''Note 1''], ch_read = False, ch_notes = [], ch_details = ''Det 1''\<rparr>,
      \<lparr>ch_id = 2, ch_title = ''Chap 2'', ch_slide = [], ch_summary = ''Sum 2'',
       ch_cliffnotes = [''Note 2''], ch_read = True, ch_notes = [''A note''],
       ch_details = ''Det 2''\<rparr>]"

text \<open>
  A store of twelve unread chapters with ids 1 to 12, as in the specification's
  end-to-end scenario.
\<close>

definition unread_chapter :: "int \<Rightarrow> Chapter" where
  "unread_chapter i =
     \<lparr>ch_id = i, ch_title = [], ch_slide = [], ch_summary = [], ch_cliffnotes = [],
      ch_read = False, ch_notes = [], ch_details = []\<rparr>"

definition twelve_chapters :: "Chapter list" where
  "twelve_chapters = map unread_chapter [1, 2, 3, 4, 5, 6, 7, 8, 9, 10, 11, 12]"

text \<open>The component after its mount against that store: chapters 1 to 5 are loaded.\<close>

definition first_page_loaded :: app_state where
  "first_page_loaded = snd (session limit (served_by twelve_chapters) 0)"

section \<open>Properties of the merge\<close>

lemma id_present_iff: "id_present i as \<longleftrightarrow> i \<in> set (map ch_id as)"
  by (induction as) auto

lemma incoming_not_present_filter:
  "incoming_not_present acc cs = filter (\<lambda>c. ch_id c \<notin> set (map ch_id acc)) cs"
  by (induction cs) (simp_all add: id_present_iff)

lemma setChs_merge_filter:
  "setChs_merge prev data = prev @ filter (\<lambda>c. ch_id c \<notin> set (map ch_id prev)) data"
  by (simp add: setChs_merge_def)

lemma setChs_merge_absorbs:
  "filter (\<lambda>c. ch_id c \<notin> set (map ch_id (setChs_merge prev data))) data = []"
  by (auto simp: setChs_merge_filter filter_empty_conv)

text \<open>
  C3. The merge of \<open>fetchChapters\<close> is the accumulated sequence followed by exactly the
  chapters of the incoming page whose id is not in the accumulated sequence, in the page's
  order, and merging the same page a second time changes nothing. It holds for every
  accumulated sequence, so in particular for those with unique ids.
\<close>

theorem merge_order_preserving_idempotent:
  "setChs_merge A P = merge_spec A P
   \<and> setChs_merge (setChs_merge A P) P = setChs_merge A P"
proof
  show "setChs_merge A P = merge_spec A P"
    by (simp add: setChs_merge_filter merge_spec_def incoming_not_present_filter)
next
  have "setChs_merge (setChs_merge A P) P
        = setChs_merge A P @ filter (\<lambda>c. ch_id c \<notin> set (map ch_id (setChs_merge A P))) P"
    by (rule setChs_merge_filter)
  also have "\<dots> = setChs_merge A P"
    by (simp only: setChs_merge_absorbs append_Nil2)
  finally show "setChs_merge (setChs_merge A P) P = setChs_merge A P" .
qed

section \<open>Paging through a store\<close>

lemma ceil_div_less: "0 < k \<Longrightarrow> j < ceil_div N k \<longleftrightarrow> j * k < N"
proof -
  assume k: "0 < k"
  have "j < (N + k - 1) div k \<longleftrightarrow> Suc j \<le> (N + k - 1) div k" by auto
  also have "\<dots> \<longleftrightarrow> Suc j * k \<le> N + k - 1"
    using k by (simp add: less_eq_div_iff_mult_less_eq)
  also have "\<dots> \<longleftrightarrow> j * k < N" using k by auto
  finally show ?thesis by (simp add: ceil_div_def)
qed

lemma fetches_needed_less:
  "0 < k \<Longrightarrow> 0 < j \<Longrightarrow> j < fetches_needed N k \<longleftrightarrow> j * k < N"
  using ceil_div_less[of k j N] by (auto simp: fetches_needed_def)

lemma not_yet_seen_filter:
  "not_yet_seen seen data = filter (\<lambda>c. ch_id c \<notin> set (map ch_id seen)) data"
  unfolding not_yet_seen_def by (rule filter_cong) (auto simp: list_ex_iff image_iff)

lemma fresh_slice:
  assumes "distinct (map ch_id store)"
  shows "filter (\<lambda>c. ch_id c \<notin> set (map ch_id (take a store))) (take k (drop a store))
         = take k (drop a store)"
proof -
  have "distinct (map ch_id (take a store @ drop a store))" using assms by simp
  then have disj: "set (map ch_id (take a store)) \<inter> set (map ch_id (drop a store)) = {}"
    by (simp only: map_append distinct_append)
  have "set (take k (drop a store)) \<subseteq> set (drop a store)" by (rule set_take_subset)
  with disj have "\<forall>c \<in> set (take k (drop a store)). ch_id c \<notin> set (map ch_id (take a store))"
    by auto
  then show ?thesis by (simp add: filter_id_conv)
qed

lemma take_then_slice: "take a xs @ take k (drop a xs) = take (a + k) xs"
  by (simp add: take_add)

lemma served_slice:
  assumes "0 < k" "j = 0 \<or> j * k < length store"
  shows "resp_data (get_chapters_handler (Suc j) k store) = take k (drop (j * k) store)"
    and "resp_total (get_chapters_handler (Suc j) k store) = length store"
  using assms by (auto simp: get_chapters_handler_def slice_def Let_def)

lemma effect_pg_next:
  assumes d: "distinct (map ch_id store)" and k: "0 < k"
    and j: "j = 0 \<or> j * k < length store"
    and st: "chs st = take (j * k) store" "pg st = Suc j" "err_msg st = None"
  shows "effect_pg k (served_by store) (sent, st)
         = (sent @ [Get_chapters (Suc j) k], loaded_state k store (Suc j))"
proof -
  let ?data = "take k (drop (j * k) store)"
  have fresh: "not_yet_seen (take (j * k) store) ?data = ?data"
    by (simp only: not_yet_seen_filter fresh_slice[OF d])
  have merged: "setChs_merge (take (j * k) store) ?data = take (Suc j * k) store"
  proof -
    have "setChs_merge (take (j * k) store) ?data = take (j * k) store @ ?data"
      by (simp only: setChs_merge_filter fresh_slice[OF d])
    then show ?thesis by (simp add: take_then_slice add.commute)
  qed
  have len: "length (take (j * k) store) + length ?data < length store
             \<longleftrightarrow> Suc j * k < length store"
    using j k by auto
  have cnt: "int (length (filter ch_read (take (j * k) store)))
               + int (length (filter ch_read ?data))
             = int (length (filter ch_read (take (k + j * k) store)))"
  proof -
    have "take (j * k) store @ ?data = take (k + j * k) store"
      by (simp add: take_then_slice add.commute)
    from arg_cong[OF this, of "\<lambda>xs. int (length (filter ch_read xs))"]
    show ?thesis by simp
  qed
  obtain c l p h g e
    where rec: "st = \<lparr>chs = c, load = l, pg = p, has_more = h, prog = g, err_msg = e\<rparr>"
    by (cases st) auto
  show ?thesis
    using st served_slice[OF k j] len cnt
    by (simp add: effect_pg_def fetchChapters_start_def fetchChapters_finish_def served_by_def
        loaded_state_def fresh merged rec)
qed

lemma mount_shape:
  assumes "distinct (map ch_id store)" "0 < k"
  shows "mount k (served_by store) = ([Get_chapters 1 k], loaded_state k store 1)"
  using effect_pg_next[OF assms, of 0 initial_state "[]"]
  by (simp add: mount_def initial_state_def)

text \<open>
  After the mount and \<open>n\<close> awaited scrolls to the bottom, the component has asked for the
  pages \<open>1 .. j\<close> in order and holds the first \<open>j * k\<close> chapters of the store, where
  \<open>j\<close> is \<open>n + 1\<close> capped at \<open>fetches_needed\<close>.
\<close>

lemma session_shape:
  assumes d: "distinct (map ch_id store)" and k: "0 < k"
  shows "session k (served_by store) n
         = (map (\<lambda>p. Get_chapters p k)
              [1 ..< Suc (min (Suc n) (fetches_needed (length store) k))],
            loaded_state k store (min (Suc n) (fetches_needed (length store) k)))"
proof (induction n)
  case 0
  have "min (Suc 0) (fetches_needed (length store) k) = 1"
    by (simp add: fetches_needed_def)
  then show ?case using mount_shape[OF d k] by simp
next
  case (Suc n)
  let ?m = "fetches_needed (length store) k"
  let ?j = "min (Suc n) ?m"
  have m1: "1 \<le> ?m" by (simp add: fetches_needed_def)
  then have j0: "0 < ?j" by simp
  show ?case
  proof (cases "?j * k < length store")
    case True
    then have "?j < ?m" using fetches_needed_less[OF k j0] by simp
    then have jn: "?j = Suc n" and nm: "Suc (Suc n) \<le> ?m" by auto
    have next': "min (Suc (Suc n)) ?m = Suc ?j" using jn nm by simp
    have scrolled: "handleScroll True (loaded_state k store ?j)
                    = (loaded_state k store ?j)\<lparr>pg := Suc ?j\<rparr>"
      using True by (simp add: handleScroll_def loaded_state_def)
    have "effect_pg k (served_by store)
            (map (\<lambda>p. Get_chapters p k) [1 ..< Suc ?j],
             (loaded_state k store ?j)\<lparr>pg := Suc ?j\<rparr>)
          = (map (\<lambda>p. Get_chapters p k) [1 ..< Suc ?j] @ [Get_chapters (Suc ?j) k],
             loaded_state k store (Suc ?j))"
      by (rule effect_pg_next[OF d k]) (use True in \<open>simp_all add: loaded_state_def\<close>)
    then show ?thesis
      using Suc.IH scrolled
      by (simp add: scroll_to_bottom_def next' loaded_state_def)
  next
    case False
    then have "\<not> ?j < ?m" using fetches_needed_less[OF k j0] by simp
    then have jm: "?j = ?m" by auto
    then have next': "min (Suc (Suc n)) ?m = ?j" by auto
    have "handleScroll True (loaded_state k store ?j) = loaded_state k store ?j"
      using False by (simp add: handleScroll_def loaded_state_def)
    then show ?thesis
      using Suc.IH by (simp add: scroll_to_bottom_def next')
  qed
qed

lemma fetches_needed_covers: "0 < k \<Longrightarrow> N \<le> fetches_needed N k * k"
proof -
  assume k: "0 < k"
  have "\<not> ceil_div N k < ceil_div N k" by simp
  then have "\<not> ceil_div N k * k < N" using ceil_div_less[OF k, of "ceil_div N k" N] by simp
  then have "N \<le> ceil_div N k * k" by simp
  also have "\<dots> \<le> fetches_needed N k * k" by (simp add: fetches_needed_def)
  finally show ?thesis .
qed

text \<open>
  C6, as amended. For a store of \<open>N\<close> chapters with distinct ids and a page size
  \<open>k > 0\<close>, the mount followed by awaited scrolls to the bottom keeps \<open>has_more\<close> true
  until \<open>fetches_needed N k = max 1 (ceil (N / k))\<close> pages have been asked for; then
  \<open>has_more\<close> is false, exactly the pages \<open>1 .. fetches_needed N k\<close> have been requested,
  \<open>chs\<close> is the whole store, and further scrolls send nothing.
\<close>

theorem hasMore_termination:
  assumes d: "distinct (map ch_id store)" and k: "0 < k"
  shows "(\<forall>n. Suc n < fetches_needed (length store) k
            \<longrightarrow> has_more (snd (session k (served_by store) n)))
       \<and> \<not> has_more (snd (session k (served_by store) (fetches_needed (length store) k - 1)))
       \<and> fst (session k (served_by store) (fetches_needed (length store) k - 1))
           = map (\<lambda>p. Get_chapters p k) [1 ..< Suc (fetches_needed (length store) k)]
       \<and> chs (snd (session k (served_by store) (fetches_needed (length store) k - 1))) = store
       \<and> (\<forall>n. fetches_needed (length store) k - 1 \<le> n
            \<longrightarrow> fst (session k (served_by store) n)
                = fst (session k (served_by store) (fetches_needed (length store) k - 1)))"
proof -
  let ?m = "fetches_needed (length store) k"
  have m1: "1 \<le> ?m" by (simp add: fetches_needed_def)
  have last: "min (Suc (?m - 1)) ?m = ?m" using m1 by simp
  have cover: "length store \<le> ?m * k" by (rule fetches_needed_covers[OF k])
  have before: "has_more (snd (session k (served_by store) n))" if "Suc n < ?m" for n
  proof -
    have "min (Suc n) ?m = Suc n" using that by simp
    moreover have "Suc n * k < length store"
      using fetches_needed_less[OF k, of "Suc n" "length store"] that by simp
    ultimately show ?thesis
      by (simp add: session_shape[OF d k] loaded_state_def)
  qed
  have stop: "\<not> has_more (snd (session k (served_by store) (?m - 1)))"
    using cover by (simp add: session_shape[OF d k] last loaded_state_def)
  have sent: "fst (session k (served_by store) (?m - 1))
              = map (\<lambda>p. Get_chapters p k) [1 ..< Suc ?m]"
    by (simp add: session_shape[OF d k] last)
  have all: "chs (snd (session k (served_by store) (?m - 1))) = store"
    using cover by (simp add: session_shape[OF d k] last loaded_state_def)
  have after: "fst (session k (served_by store) n) = fst (session k (served_by store) (?m - 1))"
    if "?m - 1 \<le> n" for n
  proof -
    have "min (Suc n) ?m = ?m" using that by auto
    then show ?thesis by (simp add: session_shape[OF d k] last)
  qed
  from before stop sent all after show ?thesis by blast
qed

lemma twelve_distinct: "distinct (map ch_id twelve_chapters)"
  by (simp add: twelve_chapters_def unread_chapter_def)

lemma twelve_needs_three: "fetches_needed (length twelve_chapters) limit = 3"
  by (simp add: fetches_needed_def ceil_div_def twelve_chapters_def limit_def)

theorem hasMore_termination_witness:
  "distinct (map ch_id twelve_chapters) \<and> 0 < limit
   \<and> has_more (snd (session limit (served_by twelve_chapters) 0))
   \<and> has_more (snd (session limit (served_by twelve_chapters) 1))
   \<and> \<not> has_more (snd (session limit (served_by twelve_chapters) 2))
   \<and> fst (session limit (served_by twelve_chapters) 2)
       = [Get_chapters 1 limit, Get_chapters 2 limit, Get_chapters 3 limit]
   \<and> chs (snd (session limit (served_by twelve_chapters) 2)) = twelve_chapters
   \<and> fst (session limit (served_by twelve_chapters) 9)
       = [Get_chapters 1 limit, Get_chapters 2 limit, Get_chapters 3 limit]"
proof -
  have k: "0 < limit" by (simp add: limit_def)
  note t = hasMore_termination[OF twelve_distinct k, unfolded twelve_needs_three]
  have three: "[Suc 0 ..< 4] = [Suc 0, 2, 3]" by (simp add: upt_rec)
  from t have before: "Suc n < 3 \<Longrightarrow> has_more (snd (session limit (served_by twelve_chapters) n))"
    and after: "2 \<le> n \<Longrightarrow> fst (session limit (served_by twelve_chapters) n)
                  = fst (session limit (served_by twelve_chapters) 2)" for n
    by simp_all
  have "has_more (snd (session limit (served_by twelve_chapters) 0))"
    and "has_more (snd (session limit (served_by twelve_chapters) 1))"
    using before[of 0] before[of 1] by simp_all
  moreover from t have "\<not> has_more (snd (session limit (served_by twelve_chapters) 2))"
    by simp
  moreover from t have sent: "fst (session limit (served_by twelve_chapters) 2)
       = [Get_chapters 1 limit, Get_chapters 2 limit, Get_chapters 3 limit]"
    by (simp add: three)
  moreover from t have "chs (snd (session limit (served_by twelve_chapters) 2)) = twelve_chapters"
    by simp
  moreover have "fst (session limit (served_by twelve_chapters) 9)
       = fst (session limit (served_by twelve_chapters) 2)"
    using after[of 9] by simp
  ultimately show ?thesis using twelve_distinct k by simp
qed

text \<open>
  The claim as stated fails for an empty store: \<open>ceil (0 / k)\<close> is 0, but \<open>has_more\<close>
  starts true and the mount sends one request before it becomes false. It also fails for
  the refactored hook, which does not look at the total: \<open>ceil (12 / 5)\<close> is 3, but after
  the third page of the twelve chapters, which holds the last two, \<open>getNextPageParam\<close>
  still names a fourth page; only an empty page ends the paging.
\<close>

theorem hasMore_termination_counterexample:
  "ceil_div (length ([] :: Chapter list)) limit = 0
   \<and> has_more initial_state
   \<and> fst (session limit (served_by []) 0) = [Get_chapters 1 limit]
   \<and> \<not> has_more (snd (session limit (served_by []) 0))
   \<and> ceil_div (length twelve_chapters) limit = 3
   \<and> getNextPageParam (get_chapters_handler 3 limit twelve_chapters)
        [get_chapters_handler 1 limit twelve_chapters,
         get_chapters_handler 2 limit twelve_chapters,
         get_chapters_handler 3 limit twelve_chapters] = Some 4
   \<and> getNextPageParam (get_chapters_handler 4 limit twelve_chapters)
        [get_chapters_handler 1 limit twelve_chapters,
         get_chapters_handler 2 limit twelve_chapters,
         get_chapters_handler 3 limit twelve_chapters,
         get_chapters_handler 4 limit twelve_chapters] = None"
proof -
  have empty: "ceil_div (length ([] :: Chapter list)) limit = 0
     \<and> has_more initial_state
     \<and> fst (session limit (served_by []) 0) = [Get_chapters 1 limit]
     \<and> \<not> has_more (snd (session limit (served_by []) 0))"
    by (simp add: ceil_div_def limit_def initial_state_def mount_def effect_pg_def
        fetchChapters_start_def fetchChapters_finish_def served_by_def
        get_chapters_handler_def not_yet_seen_def)
  have three: "ceil_div (length twelve_chapters) limit = 3"
    by (simp add: ceil_div_def twelve_chapters_def limit_def)
  have hook: "getNextPageParam (get_chapters_handler 3 limit twelve_chapters)
        [get_chapters_handler 1 limit twelve_chapters,
         get_chapters_handler 2 limit twelve_chapters,
         get_chapters_handler 3 limit twelve_chapters] = Some 4
     \<and> getNextPageParam (get_chapters_handler 4 limit twelve_chapters)
        [get_chapters_handler 1 limit twelve_chapters,
         get_chapters_handler 2 limit twelve_chapters,
         get_chapters_handler 3 limit twelve_chapters,
         get_chapters_handler 4 limit twelve_chapters] = None"
    by (simp add: getNextPageParam_def get_chapters_handler_def slice_def limit_def
        twelve_chapters_def)
  from empty three hook show ?thesis by blast
qed

text \<open>The geometry the scroll tests set up passes the listener's distance test.\<close>

lemma test_scroll_is_near_bottom: "near_bottom 1000 1000 1900"
  by (simp add: near_bottom_def)

section \<open>The read counter\<close>

lemma first_page_loaded_eq: "first_page_loaded = loaded_state limit twelve_chapters 1"
  using mount_shape[OF twelve_distinct, of limit]
  by (simp add: first_page_loaded_def limit_def)

lemma first_page_ids: "map ch_id (chs first_page_loaded) = [1, 2, 3, 4, 5]"
  by (simp add: first_page_loaded_eq loaded_state_def limit_def twelve_chapters_def
      unread_chapter_def)

lemma first_page_unread: "filter ch_read (chs first_page_loaded) = []"
  by (simp add: first_page_loaded_eq loaded_state_def limit_def twelve_chapters_def
      unread_chapter_def)

lemma replace_absent_id:
  "i \<notin> set (map ch_id cs) \<Longrightarrow> map (\<lambda>c. if ch_id c = i then u else c) cs = cs"
  by (induction cs) auto

text \<open>
  C1. The code breaks the claim. With chapters 1 to 5 loaded and none read, the detail
  page of chapter 9 gets that chapter from the server, unread, and toggles it: the
  server answers with chapter 9 marked read, no loaded record has id 9, so \<open>chs\<close>
  stays as it was with no chapter read, while \<open>setProg\<close> adds one to the count of the
  \<open>chs\<close> it saw: the counter shows 1.
\<close>

theorem toggle_read_counter_drifts:
  "get_chapter_handler 9 twelve_chapters = Json (unread_chapter 9)
   \<and> fst (patch_chapter_handler 9 True twelve_chapters)
     = Json ((unread_chapter 9)\<lparr>ch_read := True\<rparr>)
   \<and> chs (snd (handle_toggle_read 9 False
              (fetch_result (fst (patch_chapter_handler 9 True twelve_chapters)))
              first_page_loaded))
       = chs first_page_loaded
   \<and> length (filter ch_read (chs first_page_loaded)) = 0
   \<and> prog (snd (handle_toggle_read 9 False
              (fetch_result (fst (patch_chapter_handler 9 True twelve_chapters)))
              first_page_loaded))
       = 1"
proof -
  have srv: "fst (patch_chapter_handler 9 True twelve_chapters)
             = Json ((unread_chapter 9)\<lparr>ch_read := True\<rparr>)"
    by (simp add: patch_chapter_handler_def find_chapter_def twelve_chapters_def
        unread_chapter_def)
  have shown: "get_chapter_handler 9 twelve_chapters = Json (unread_chapter 9)"
    by (simp add: get_chapter_handler_def find_chapter_def twelve_chapters_def
        unread_chapter_def)
  have absent: "9 \<notin> set (map ch_id (chs first_page_loaded))"
    by (simp add: first_page_ids)
  show ?thesis
    by (simp add: srv shown fetch_result_def handle_toggle_read_def
        handle_toggle_read_start_def handle_toggle_read_finish_def
        replace_absent_id[OF absent] first_page_unread)
qed

text \<open>
  The same drift with loaded chapters, when two toggles are in flight together: the
  switches of chapters 1 and 2 are clicked before either answer arrives, so both handlers
  come from the same render and see the same \<open>chs\<close> with no chapter read. After both
  answers two chapters are read and the counter shows 1.
\<close>

lemma two_toggles_in_flight_counter_drifts:
  "length (filter ch_read (chs
      (handle_toggle_read_finish (chs first_page_loaded) 2 False
         (Res_ok ((unread_chapter 2)\<lparr>ch_read := True\<rparr>))
         (handle_toggle_read_finish (chs first_page_loaded) 1 False
            (Res_ok ((unread_chapter 1)\<lparr>ch_read := True\<rparr>)) first_page_loaded)))) = 2
   \<and> prog
      (handle_toggle_read_finish (chs first_page_loaded) 2 False
         (Res_ok ((unread_chapter 2)\<lparr>ch_read := True\<rparr>))
         (handle_toggle_read_finish (chs first_page_loaded) 1 False
            (Res_ok ((unread_chapter 1)\<lparr>ch_read := True\<rparr>)) first_page_loaded)) = 1"
  by (simp add: handle_toggle_read_finish_def first_page_loaded_eq loaded_state_def
      limit_def twelve_chapters_def unread_chapter_def)

text \<open>
  An awaited page fetch does recount: after \<open>fetchChapters\<close> has merged a page, with the
  \<open>chs\<close> it saw being the current one, \<open>prog\<close> is the number of read chapters in the new
  \<open>chs\<close>. So is the \<open>progress\<close> of the refactored hook, by its definition.
\<close>

theorem fetch_recounts_progress:
  "prog (fetchChapters_finish (chs st) (Res_ok body) st)
     = int (length (filter ch_read (chs (fetchChapters_finish (chs st) (Res_ok body) st))))
   \<and> useChapters_progress (Some cs) = length (filter ch_read cs)"
  by (simp add: fetchChapters_finish_def not_yet_seen_filter setChs_merge_filter
      useChapters_progress_def)

section \<open>Duplicate ids\<close>

text \<open>
  C2. The code breaks the claim in the refactored hook. The infinite-scroll test answers
  every page request with the same two chapters; \<open>select\<close> concatenates the pages, so
  the list of chapters holds the ids 1 and 2 twice.
\<close>

theorem select_repeats_ids:
  "map ch_id (useChapters_select
      [\<lparr>resp_data = mockChapters, resp_total = 10\<rparr>,
       \<lparr>resp_data = mockChapters, resp_total = 10\<rparr>]) = [1, 2, 1, 2]
   \<and> \<not> distinct (map ch_id (useChapters_select
      [\<lparr>resp_data = mockChapters, resp_total = 10\<rparr>,
       \<lparr>resp_data = mockChapters, resp_total = 10\<rparr>]))"
  by (simp add: useChapters_select_def mockChapters_def)

text \<open>
  The legacy component's merge does keep ids unique: starting from a list without
  repeated ids, merging any sequence of pages, none of which repeats an id within itself,
  gives a list without repeated ids. Pages may overlap each other and the list.
\<close>

lemma setChs_merge_distinct:
  assumes "distinct (map ch_id prev)" "distinct (map ch_id data)"
  shows "distinct (map ch_id (setChs_merge prev data))"
proof -
  have "distinct (map ch_id (filter (\<lambda>c. ch_id c \<notin> set (map ch_id prev)) data))"
    using assms(2) by (rule distinct_map_filter)
  then show ?thesis
    using assms(1) by (fastforce simp: setChs_merge_filter image_iff)
qed

theorem accumulated_ids_stay_distinct:
  "distinct (map ch_id acc) \<Longrightarrow> \<forall>P \<in> set pages. distinct (map ch_id P)
   \<Longrightarrow> distinct (map ch_id (foldl setChs_merge acc pages))"
proof (induction pages arbitrary: acc)
  case Nil
  then show ?case by simp
next
  case (Cons P pages)
  have "distinct (map ch_id (setChs_merge acc P))"
    using Cons.prems by (simp add: setChs_merge_distinct)
  then show ?case using Cons.IH Cons.prems by simp
qed

theorem accumulated_ids_stay_distinct_witness:
  "distinct (map ch_id ([] :: Chapter list))
   \<and> distinct (map ch_id mockChapters)
   \<and> distinct (map ch_id (foldl setChs_merge [] [mockChapters, mockChapters]))
   \<and> foldl setChs_merge [] [mockChapters, mockChapters] = mockChapters"
proof -
  have m: "distinct (map ch_id mockChapters)" by (simp add: mockChapters_def)
  have "distinct (map ch_id (foldl setChs_merge [] [mockChapters, mockChapters]))"
    using accumulated_ids_stay_distinct[of "[]" "[mockChapters, mockChapters]"] m by simp
  moreover have "foldl setChs_merge [] [mockChapters, mockChapters] = mockChapters"
    by (simp add: setChs_merge_def mockChapters_def)
  ultimately show ?thesis using m by simp
qed

section \<open>Adding a note\<close>

text \<open>
  C4, as amended. For every chapter id, \<open>add_note\<close> with the empty text sends nothing
  and leaves the whole state, so the chapter's notes too, as it was; the Add Note button
  of the refactored client hands nothing to \<open>onAddNote\<close> for the empty text. The empty
  text is the only one either of them holds back: neither trims.
\<close>

theorem add_note_rejects_empty_text:
  "add_note id_num [] res st = ([], st)
   \<and> ChapterNotes_onClick [] = None
   \<and> (fst (add_note id_num txt res st) = [] \<longleftrightarrow> txt = [])
   \<and> (ChapterNotes_onClick txt = None \<longleftrightarrow> txt = [])"
  by (simp add: add_note_def add_note_start_def ChapterNotes_onClick_def)

text \<open>
  The claim as stated fails for a text of three blanks: the POST goes out, the server
  appends the blanks to chapter 5's notes, and the answer replaces the local record.
\<close>

theorem add_note_blank_text_counterexample:
  "fst (add_note 5 ''   ''
          (fetch_result (fst (post_note_handler 5 ''   '' twelve_chapters)))
          first_page_loaded)
     = [Post_note 5 ''   '']
   \<and> map ch_notes (filter (\<lambda>c. ch_id c = 5) (chs first_page_loaded)) = [[]]
   \<and> map ch_notes (filter (\<lambda>c. ch_id c = 5)
        (chs (snd (add_note 5 ''   ''
                (fetch_result (fst (post_note_handler 5 ''   '' twelve_chapters)))
                first_page_loaded))))
       = [[''   '']]
   \<and> ChapterNotes_onClick ''   '' = Some ''   ''"
  by (simp add: add_note_def add_note_start_def add_note_finish_def fetch_result_def
      post_note_handler_def find_chapter_def ChapterNotes_onClick_def
      first_page_loaded_eq loaded_state_def limit_def twelve_chapters_def unread_chapter_def)

section \<open>Toggling the read flag\<close>

text \<open>
  C7, as amended. \<open>handle_toggle_read\<close> sends the PATCH with the negated flag and leaves
  the state untouched while the request is outstanding (there is no optimistic flip). On
  a good answer every local record with that id is replaced by the returned record. On a
  failure \<open>chs\<close> is unchanged, so every chapter keeps its read value, and the error's
  message is put in \<open>err_msg\<close>.
\<close>

theorem toggle_read_reconciles:
  "handle_toggle_read_start i r st = (Patch_chapter i (\<not> r), st)
   \<and> fst (handle_toggle_read i r res st) = [Patch_chapter i (\<not> r)]
   \<and> chs (snd (handle_toggle_read i r (Res_ok u) st))
       = map (\<lambda>c. if ch_id c = i then u else c) (chs st)
   \<and> chs (snd (handle_toggle_read i r Res_not_ok st)) = chs st
   \<and> err_msg (snd (handle_toggle_read i r Res_not_ok st)) = Some ''Failed to toggle read''
   \<and> chs (snd (handle_toggle_read i r (Rejected m) st)) = chs st
   \<and> err_msg (snd (handle_toggle_read i r (Rejected m) st)) = Some m"
  by (simp add: handle_toggle_read_def handle_toggle_read_start_def
      handle_toggle_read_finish_def)

text \<open>
  The claim as stated fails on the optimistic flip: with chapter 3 loaded and unread,
  the state in which the PATCH is outstanding still shows chapter 3 unread.
\<close>

theorem toggle_read_no_optimistic_flip_counterexample:
  "map ch_read (filter (\<lambda>c. ch_id c = 3) (chs first_page_loaded)) = [False]
   \<and> fst (handle_toggle_read_start 3 False first_page_loaded) = Patch_chapter 3 True
   \<and> map ch_read (filter (\<lambda>c. ch_id c = 3)
        (chs (snd (handle_toggle_read_start 3 False first_page_loaded)))) = [False]"
  by (simp add: handle_toggle_read_start_def first_page_loaded_eq loaded_state_def
      limit_def twelve_chapters_def unread_chapter_def)

section \<open>Mutations on a chapter that is not loaded\<close>

text \<open>
  C9, as amended. For an id that no loaded chapter has, \<open>handle_toggle_read\<close> still
  sends its PATCH and \<open>add_note\<close>, for a non-empty text, its POST; whatever the store
  answers, \<open>chs\<close> is left as it was.
\<close>

theorem unknown_id_reaches_store:
  assumes "i \<notin> set (map ch_id (chs st))"
  shows "fst (handle_toggle_read i r res st) = [Patch_chapter i (\<not> r)]
       \<and> chs (snd (handle_toggle_read i r res st)) = chs st
       \<and> fst (add_note i txt res st) = (if txt = [] then [] else [Post_note i txt])
       \<and> chs (snd (add_note i txt res st)) = chs st"
  using replace_absent_id[OF assms]
  by (cases res)
     (simp_all add: handle_toggle_read_def handle_toggle_read_start_def
        handle_toggle_read_finish_def add_note_def add_note_start_def add_note_finish_def)

theorem unknown_id_reaches_store_witness:
  "9 \<notin> set (map ch_id (chs first_page_loaded))
   \<and> fst (handle_toggle_read 9 False Res_not_ok first_page_loaded) = [Patch_chapter 9 True]
   \<and> chs (snd (handle_toggle_read 9 False Res_not_ok first_page_loaded))
       = chs first_page_loaded
   \<and> fst (add_note 9 ''hi'' Res_not_ok first_page_loaded) = [Post_note 9 ''hi'']
   \<and> chs (snd (add_note 9 ''hi'' Res_not_ok first_page_loaded)) = chs first_page_loaded"
proof -
  have absent: "9 \<notin> set (map ch_id (chs first_page_loaded))"
    by (simp add: first_page_ids)
  show ?thesis
    using absent
      unknown_id_reaches_store[OF absent, of False Res_not_ok "''hi''"]
    by simp
qed

text \<open>
  The claim as stated fails: chapter 9 is not loaded, yet both handlers call the store,
  and when the store knows the chapter no error is raised.
\<close>

theorem unknown_id_guard_counterexample:
  "9 \<notin> set (map ch_id (chs first_page_loaded))
   \<and> fst (handle_toggle_read 9 False
            (fetch_result (fst (patch_chapter_handler 9 True twelve_chapters)))
            first_page_loaded) = [Patch_chapter 9 True]
   \<and> err_msg (snd (handle_toggle_read 9 False
            (fetch_result (fst (patch_chapter_handler 9 True twelve_chapters)))
            first_page_loaded)) = None
   \<and> fst (add_note 9 ''hi''
            (fetch_result (fst (post_note_handler 9 ''hi'' twelve_chapters)))
            first_page_loaded) = [Post_note 9 ''hi'']
   \<and> err_msg (snd (add_note 9 ''hi''
            (fetch_result (fst (post_note_handler 9 ''hi'' twelve_chapters)))
            first_page_loaded)) = None"
proof -
  have old: "err_msg first_page_loaded = None"
    by (simp add: first_page_loaded_eq loaded_state_def)
  have p: "fst (patch_chapter_handler 9 True twelve_chapters)
           = Json ((unread_chapter 9)\<lparr>ch_read := True\<rparr>)"
    by (simp add: patch_chapter_handler_def find_chapter_def twelve_chapters_def
        unread_chapter_def)
  have n: "fst (post_note_handler 9 ''hi'' twelve_chapters)
           = Json ((unread_chapter 9)\<lparr>ch_notes := [''hi'']\<rparr>)"
    by (simp add: post_note_handler_def find_chapter_def twelve_chapters_def
        unread_chapter_def)
  show ?thesis
    by (simp add: p n old first_page_ids fetch_result_def handle_toggle_read_def
        handle_toggle_read_start_def handle_toggle_read_finish_def add_note_def
        add_note_start_def add_note_finish_def)
qed

section \<open>A failed page fetch\<close>

text \<open>
  What \<open>fetchChapters\<close> itself does on a failure: \<open>chs\<close>, \<open>pg\<close>, \<open>has_more\<close> and
  \<open>prog\<close> stay, the message is put in \<open>err_msg\<close>, and \<open>load\<close> is false again.
\<close>

theorem fetch_failure_frame:
  "chs (fetchChapters_finish seen Res_not_ok st) = chs st
   \<and> pg (fetchChapters_finish seen Res_not_ok st) = pg st
   \<and> has_more (fetchChapters_finish seen Res_not_ok st) = has_more st
   \<and> prog (fetchChapters_finish seen Res_not_ok st) = prog st
   \<and> err_msg (fetchChapters_finish seen Res_not_ok st) = Some ''Failed to fetch chaps''
   \<and> \<not> load (fetchChapters_finish seen Res_not_ok st)
   \<and> chs (fetchChapters_finish seen (Rejected m) st) = chs st
   \<and> pg (fetchChapters_finish seen (Rejected m) st) = pg st
   \<and> has_more (fetchChapters_finish seen (Rejected m) st) = has_more st
   \<and> prog (fetchChapters_finish seen (Rejected m) st) = prog st
   \<and> err_msg (fetchChapters_finish seen (Rejected m) st) = Some m
   \<and> \<not> load (fetchChapters_finish seen (Rejected m) st)"
  by (simp add: fetchChapters_finish_def)

lemma session_two:
  "session k store 2 = scroll_to_bottom k store (scroll_to_bottom k store (mount k store))"
  by (simp add: numeral_2_eq_2)

lemma session_one: "session k store 1 = scroll_to_bottom k store (mount k store)"
  by simp

lemma failing_mount:
  "mount limit (failing_at 2 twelve_chapters)
   = ([Get_chapters 1 limit], loaded_state limit twelve_chapters 1)"
  using mount_shape[OF twelve_distinct, of limit]
  by (simp add: mount_def effect_pg_def failing_at_def initial_state_def limit_def)

lemma failing_second:
  "scroll_to_bottom limit (failing_at 2 twelve_chapters)
     ([Get_chapters 1 limit], loaded_state limit twelve_chapters 1)
   = ([Get_chapters 1 limit, Get_chapters 2 limit],
      (loaded_state limit twelve_chapters 1)
        \<lparr>pg := 2, err_msg := Some ''Failed to fetch chaps''\<rparr>)"
  by (simp add: scroll_to_bottom_def handleScroll_def effect_pg_def failing_at_def
      fetchChapters_start_def fetchChapters_finish_def loaded_state_def limit_def
      twelve_chapters_def)

text \<open>
  C8. The code breaks the claim on the retry. Page 1 of twelve chapters is loaded; the
  scroll moves \<open>pg\<close> to 2 and the request for page 2 fails. \<open>chs\<close> keeps chapters 1 to 5,
  the message is shown, \<open>load\<close> is false. The next scroll, the only way to ask again,
  moves \<open>pg\<close> to 3: the third request is for page 3, and chapters 6 to 10 are never
  loaded.
\<close>

theorem failed_page_is_skipped:
  "fst (session limit (failing_at 2 twelve_chapters) 1)
     = [Get_chapters 1 limit, Get_chapters 2 limit]
   \<and> map ch_id (chs (snd (session limit (failing_at 2 twelve_chapters) 1))) = [1, 2, 3, 4, 5]
   \<and> pg (snd (session limit (failing_at 2 twelve_chapters) 1)) = 2
   \<and> err_msg (snd (session limit (failing_at 2 twelve_chapters) 1))
       = Some ''Failed to fetch chaps''
   \<and> \<not> load (snd (session limit (failing_at 2 twelve_chapters) 1))
   \<and> fst (session limit (failing_at 2 twelve_chapters) 2)
       = [Get_chapters 1 limit, Get_chapters 2 limit, Get_chapters 3 limit]
   \<and> map ch_id (chs (snd (session limit (failing_at 2 twelve_chapters) 2)))
       = [1, 2, 3, 4, 5, 11, 12]"
proof -
  have one: "session limit (failing_at 2 twelve_chapters) 1
             = ([Get_chapters 1 limit, Get_chapters 2 limit],
                (loaded_state limit twelve_chapters 1)
                  \<lparr>pg := 2, err_msg := Some ''Failed to fetch chaps''\<rparr>)"
    by (simp only: session_one failing_mount failing_second)
  have two: "scroll_to_bottom limit (failing_at 2 twelve_chapters)
               ([Get_chapters 1 limit, Get_chapters 2 limit],
                (loaded_state limit twelve_chapters 1)
                  \<lparr>pg := 2, err_msg := Some ''Failed to fetch chaps''\<rparr>)
             = ([Get_chapters 1 limit, Get_chapters 2 limit, Get_chapters 3 limit],
                (loaded_state limit twelve_chapters 1)
                  \<lparr>chs := map unread_chapter [1, 2, 3, 4, 5, 11, 12], pg := 3,
                    err_msg := Some ''Failed to fetch chaps''\<rparr>)"
    by (simp add: scroll_to_bottom_def handleScroll_def effect_pg_def failing_at_def
        served_by_def get_chapters_handler_def slice_def fetchChapters_start_def
        fetchChapters_finish_def setChs_merge_def not_yet_seen_def loaded_state_def
        limit_def twelve_chapters_def unread_chapter_def)
  have both: "session limit (failing_at 2 twelve_chapters) 2
        = ([Get_chapters 1 limit, Get_chapters 2 limit, Get_chapters 3 limit],
           (loaded_state limit twelve_chapters 1)
             \<lparr>chs := map unread_chapter [1, 2, 3, 4, 5, 11, 12], pg := 3,
               err_msg := Some ''Failed to fetch chaps''\<rparr>)"
    by (simp only: session_two failing_mount failing_second two)
  show ?thesis
    unfolding one both
    by (simp add: loaded_state_def limit_def twelve_chapters_def unread_chapter_def)
qed

section \<open>The scroll gate\<close>

text \<open>
  With the state it reads showing a request in flight, or no more pages, a scroll to the
  bottom changes nothing and sends nothing. \<open>fetchChapters\<close> raises \<open>load\<close> before it
  waits and lowers it however the request ends.
\<close>

theorem scroll_gate_closed:
  "(load st \<or> \<not> has_more st \<longrightarrow>
      handleScroll near st = st \<and> scroll_to_bottom lim store (sent, st) = (sent, st))
   \<and> load (snd (fetchChapters_start lim p st))
   \<and> \<not> load (fetchChapters_finish seen res st)"
  by (cases res)
     (auto simp: handleScroll_def scroll_to_bottom_def fetchChapters_start_def
        fetchChapters_finish_def)

text \<open>
  The listener itself neither raises \<open>load\<close> nor sends the request: two scroll events
  that reach it before the effect has run both pass the test and move \<open>pg\<close> twice.
\<close>

lemma double_scroll_moves_pg_twice:
  "has_more st \<and> \<not> load st \<Longrightarrow> pg (handleScroll True (handleScroll True st)) = pg st + 2"
  by (simp add: handleScroll_def)

theorem scroll_gate_closed_witness:
  "load initial_state
   \<and> handleScroll True initial_state = initial_state
   \<and> scroll_to_bottom limit (served_by twelve_chapters) ([], initial_state)
       = ([], initial_state)
   \<and> \<not> has_more (snd (session limit (served_by twelve_chapters) 2))
   \<and> scroll_to_bottom limit (served_by twelve_chapters)
        ([], snd (session limit (served_by twelve_chapters) 2))
       = ([], snd (session limit (served_by twelve_chapters) 2))"
proof -
  have l: "load initial_state" by (simp add: initial_state_def)
  have k: "0 < limit" by (simp add: limit_def)
  have "snd (session limit (served_by twelve_chapters) 2) = loaded_state limit twelve_chapters 3"
    using session_shape[OF twelve_distinct k, of 2, unfolded twelve_needs_three] by simp
  then have h: "\<not> has_more (snd (session limit (served_by twelve_chapters) 2))"
    by (simp add: loaded_state_def twelve_chapters_def limit_def)
  show ?thesis
    using l h
      scroll_gate_closed[of initial_state True limit "served_by twelve_chapters" "[]"]
      scroll_gate_closed[of "snd (session limit (served_by twelve_chapters) 2)" True limit
        "served_by twelve_chapters" "[]"]
    by simp
qed

section \<open>The server's mutation handlers\<close>

lemma find_chapter_None: "find_chapter i cs = None \<longleftrightarrow> i \<notin> set (map ch_id cs)"
  by (auto simp: find_chapter_def find_None_iff)

lemma assign_found_update:
  "k < length cs \<Longrightarrow> ch_id (cs ! k) = i \<Longrightarrow> (\<forall>j<k. ch_id (cs ! j) \<noteq> i)
   \<Longrightarrow> assign_found i f cs = cs[k := f (cs ! k)]"
proof (induction cs arbitrary: k)
  case Nil
  then show ?case by simp
next
  case (Cons c cs)
  show ?case
  proof (cases k)
    case 0
    then show ?thesis using Cons.prems by simp
  next
    case (Suc k')
    have "ch_id c \<noteq> i" using Cons.prems(3) Suc by auto
    moreover have "assign_found i f cs = cs[k' := f (cs ! k')]"
      using Cons.prems Suc by (intro Cons.IH) auto
    ultimately show ?thesis using Suc by simp
  qed
qed

text \<open>
  C10. For an id no chapter of the store has, both handlers answer 404 and the store
  is the same list. For an id that is present, let \<open>k\<close> be the position of the first
  chapter with that id: PATCH answers with that chapter with \<open>read\<close> set to the
  body's boolean and the store differs at position \<open>k\<close> only, by that one field; POST
  notes answers with that chapter with the note appended to its notes and the store
  differs at position \<open>k\<close> only, by that one field.
\<close>

theorem server_mutation_frame:
  "(i \<notin> set (map ch_id chapters) \<longrightarrow>
      patch_chapter_handler i b chapters = (Status_404, chapters)
      \<and> post_note_handler i note chapters = (Status_404, chapters))
   \<and> (i \<in> set (map ch_id chapters) \<longrightarrow>
      (\<exists>k<length chapters. ch_id (chapters ! k) = i \<and> (\<forall>j<k. ch_id (chapters ! j) \<noteq> i)
         \<and> patch_chapter_handler i b chapters
             = (Json ((chapters ! k)\<lparr>ch_read := b\<rparr>),
                chapters[k := (chapters ! k)\<lparr>ch_read := b\<rparr>])
         \<and> post_note_handler i note chapters
             = (Json ((chapters ! k)\<lparr>ch_notes := ch_notes (chapters ! k) @ [note]\<rparr>),
                chapters[k := (chapters ! k)\<lparr>ch_notes := ch_notes (chapters ! k) @ [note]\<rparr>])))"
proof (intro conjI impI)
  assume "i \<notin> set (map ch_id chapters)"
  then have "find_chapter i chapters = None" by (simp add: find_chapter_None)
  then show "patch_chapter_handler i b chapters = (Status_404, chapters)"
    and "post_note_handler i note chapters = (Status_404, chapters)"
    by (simp_all add: patch_chapter_handler_def post_note_handler_def)
next
  assume "i \<in> set (map ch_id chapters)"
  then have "find_chapter i chapters \<noteq> None" using find_chapter_None[of i chapters] by blast
  then obtain c where c: "find (\<lambda>c. ch_id c = i) chapters = Some c"
    by (auto simp: find_chapter_def)
  then obtain k where k: "k < length chapters" "ch_id (chapters ! k) = i"
      "c = chapters ! k" "\<forall>j<k. ch_id (chapters ! j) \<noteq> i"
    unfolding find_Some_iff by blast
  have "patch_chapter_handler i b chapters
          = (Json ((chapters ! k)\<lparr>ch_read := b\<rparr>),
             chapters[k := (chapters ! k)\<lparr>ch_read := b\<rparr>])"
    using c k(3) assign_found_update[OF k(1,2,4)]
    by (simp add: patch_chapter_handler_def find_chapter_def)
  moreover have "post_note_handler i note chapters
          = (Json ((chapters ! k)\<lparr>ch_notes := ch_notes (chapters ! k) @ [note]\<rparr>),
             chapters[k := (chapters ! k)\<lparr>ch_notes := ch_notes (chapters ! k) @ [note]\<rparr>])"
    using c k(3) assign_found_update[OF k(1,2,4)]
    by (simp add: post_note_handler_def find_chapter_def)
  ultimately show "\<exists>k<length chapters. ch_id (chapters ! k) = i
         \<and> (\<forall>j<k. ch_id (chapters ! j) \<noteq> i)
         \<and> patch_chapter_handler i b chapters
             = (Json ((chapters ! k)\<lparr>ch_read := b\<rparr>),
                chapters[k := (chapters ! k)\<lparr>ch_read := b\<rparr>])
         \<and> post_note_handler i note chapters
             = (Json ((chapters ! k)\<lparr>ch_notes := ch_notes (chapters ! k) @ [note]\<rparr>),
                chapters[k := (chapters ! k)\<lparr>ch_notes := ch_notes (chapters ! k) @ [note]\<rparr>])"
    using k by blast
qed

theorem server_mutation_frame_witness:
  "7 \<notin> set (map ch_id mockChapters)
   \<and> patch_chapter_handler 7 True mockChapters = (Status_404, mockChapters)
   \<and> post_note_handler 7 ''New note'' mockChapters = (Status_404, mockChapters)
   \<and> 2 \<in> set (map ch_id mockChapters)
   \<and> (\<exists>k<length mockChapters. ch_id (mockChapters ! k) = 2
        \<and> patch_chapter_handler 2 False mockChapters
            = (Json ((mockChapters ! k)\<lparr>ch_read := False\<rparr>),
               mockChapters[k := (mockChapters ! k)\<lparr>ch_read := False\<rparr>])
        \<and> post_note_handler 2 ''New note'' mockChapters
            = (Json ((mockChapters ! k)
                  \<lparr>ch_notes := ch_notes (mockChapters ! k) @ [''New note'']\<rparr>),
               mockChapters[k := (mockChapters ! k)
                  \<lparr>ch_notes := ch_notes (mockChapters ! k) @ [''New note'']\<rparr>]))"
proof -
  have absent: "7 \<notin> set (map ch_id mockChapters)" by (simp add: mockChapters_def)
  have present: "2 \<in> set (map ch_id mockChapters)" by (simp add: mockChapters_def)
  from server_mutation_frame[of 7 mockChapters True "''New note''"] absent
  have a: "patch_chapter_handler 7 True mockChapters = (Status_404, mockChapters)"
    "post_note_handler 7 ''New note'' mockChapters = (Status_404, mockChapters)"
    by blast+
  from server_mutation_frame[of 2 mockChapters False "''New note''"] present
  have "\<exists>k<length mockChapters. ch_id (mockChapters ! k) = 2
        \<and> patch_chapter_handler 2 False mockChapters
            = (Json ((mockChapters ! k)\<lparr>ch_read := False\<rparr>),
               mockChapters[k := (mockChapters ! k)\<lparr>ch_read := False\<rparr>])
        \<and> post_note_handler 2 ''New note'' mockChapters
            = (Json ((mockChapters ! k)
                  \<lparr>ch_notes := ch_notes (mockChapters ! k) @ [''New note'']\<rparr>),
               mockChapters[k := (mockChapters ! k)
                  \<lparr>ch_notes := ch_notes (mockChapters ! k) @ [''New note'']\<rparr>])"
    by blast
  with a absent present show ?thesis by blast
qed


end
